theory Spec2Isabelle
  imports Main
begin

section \<open>The AMax reduction node of the IR (torch\_xla/csrc/ops/amax.cpp, amax.h)\<close>

text \<open>
  The embedding follows \<^verbatim>\<open>amax.cpp\<close>: the constructor \<^verbatim>\<open>AMax::AMax\<close>, the file-local
  helper \<^verbatim>\<open>NodeOutputShape\<close>, and the overrides \<^verbatim>\<open>Clone\<close>, \<^verbatim>\<open>Lower\<close> and
  \<^verbatim>\<open>ToString\<close>; the accessor \<^verbatim>\<open>keepdim()\<close> is taken from \<^verbatim>\<open>amax.h\<close>.

  The header and the implementation disagree: \<^verbatim>\<open>amax.h\<close> declares the constructor with
  a single \<^verbatim>\<open>xla::int64 dim\<close>, a member \<^verbatim>\<open>xla::int64 dimensions\<close> and an accessor
  \<^verbatim>\<open>dim()\<close> that reads a member \<^verbatim>\<open>dim_\<close> which the class does not declare, while
  \<^verbatim>\<open>amax.cpp\<close> takes a \<^verbatim>\<open>std::vector<xla::int64>\<close> and initialises members
  \<^verbatim>\<open>dimensions_\<close> and \<^verbatim>\<open>keepdim_\<close>. The record below has the members the
  implementation initialises, as \<open>dimensions_member\<close> and \<open>keepdim_member\<close>.

  The base class \<^verbatim>\<open>Node\<close>, \<^verbatim>\<open>Value\<close>, \<^verbatim>\<open>LoweringContext\<close>, \<^verbatim>\<open>InferOutputShape\<close>,
  \<^verbatim>\<open>BuildMaxInDims\<close> and the hashing utilities are included by \<^verbatim>\<open>amax.cpp\<close> but are
  not among the source files; their models are marked as such.
\<close>

subsection \<open>Shapes, errors, operation kinds\<close>

text \<open>
  An \<^verbatim>\<open>xla::Shape\<close> is represented by its list of dimension sizes (\<^verbatim>\<open>xla::int64\<close>
  each); its length is the rank. Reduction axes are \<^verbatim>\<open>xla::int64\<close> values as well; no
  arithmetic is done on them, so they are unbounded integers here.
\<close>

type_synonym Shape = "int list"

text \<open>
  The error taxonomy of the IR layer, and \<^verbatim>\<open>std::out_of_range\<close> as thrown by
  \<^verbatim>\<open>.at(i)\<close> on an operand list.
\<close>

datatype error = ShapeMismatch | IndexOutOfRange | LoweringError | StdOutOfRange

datatype OpKind = OpKind string

text \<open>The interned symbol \<^verbatim>\<open>at::aten::argmax\<close>, by its qualified name.\<close>

definition aten_argmax :: string where
  "aten_argmax = ''aten::argmax''"

subsection \<open>Nodes and values\<close>

text \<open>
  Modelled from the spec: the base class \<^verbatim>\<open>Node\<close> and \<^verbatim>\<open>Value\<close> of
  \<^verbatim>\<open>torch_xla/csrc/ir.h\<close>, which is missing. A node has an operation-kind tag, an
  ordered sequence of operand values, an output shape, a number of outputs and a
  structural hash; a value refers to one (node, output-index) pair. The hash type is
  left open.
\<close>

datatype 'h Node =
  Node (op: OpKind) (operands: "'h Value list") (shape: Shape) (num_outputs: nat) (hash: 'h)
and 'h Value =
  Value (node: "'h Node") (index: nat)

text \<open>
  Modelled from the spec: \<^verbatim>\<open>Value::shape()\<close>, the shape of the referenced output. The
  model covers array-shaped nodes, whose outputs have the node's shape.
\<close>

definition Value_shape :: "'h Value \<Rightarrow> Shape" where
  "Value_shape v = shape (node v)"

text \<open>
  The hashing primitives are missing from the sources and the spec does not fix their
  arithmetic, so they are parameters: \<^verbatim>\<open>xla::util::MHash(dimensions, keepdim)\<close> as
  called by the constructor, the hash of an operation kind under a seed, the hash of a
  value from the hash of its node and its output index, and the combination of two
  hashes.
\<close>

record 'h HashFns =
  MHash :: "int list \<Rightarrow> bool \<Rightarrow> 'h"
  OpHash :: "OpKind \<Rightarrow> 'h \<Rightarrow> 'h"
  OutputHash :: "'h \<Rightarrow> nat \<Rightarrow> 'h"
  HashCombine :: "'h \<Rightarrow> 'h \<Rightarrow> 'h"

definition Value_hash :: "'h HashFns \<Rightarrow> 'h Value \<Rightarrow> 'h" where
  "Value_hash H v = OutputHash H (hash (node v)) (index v)"

text \<open>
  Modelled from the spec: the constructor of \<^verbatim>\<open>Node\<close>, missing from the sources. It
  invokes the shape function once, eagerly, so that a failing shape inference fails
  the construction, and its structural hash combines the operation kind, the operand
  identities and the seed of the operation's parameters.
\<close>

definition Node_ctor ::
  "'h HashFns \<Rightarrow> OpKind \<Rightarrow> 'h Value list \<Rightarrow> (unit \<Rightarrow> error + Shape) \<Rightarrow> nat \<Rightarrow> 'h
     \<Rightarrow> error + 'h Node" where
  "Node_ctor H k ops shape_fn n hash_seed =
     (case shape_fn () of
        Inl e \<Rightarrow> Inl e
      | Inr s \<Rightarrow>
          Inr (Node k ops s n
                 (foldl (HashCombine H) (OpHash H k hash_seed) (map (Value_hash H) ops))))"

text \<open>
  Modelled from the spec: \<^verbatim>\<open>Node::operand(i)\<close>, missing from the sources; a checked
  read of the operand list.
\<close>

definition operand :: "'h Node \<Rightarrow> nat \<Rightarrow> error + 'h Value" where
  "operand nd i = (if i < length (operands nd) then Inr (operands nd ! i) else Inl StdOutOfRange)"

text \<open>
  Modelled from the spec: \<^verbatim>\<open>Node::ToString\<close>, missing from the sources; the base
  representation shows the operation kind.
\<close>

definition Node_ToString :: "'h Node \<Rightarrow> string" where
  "Node_ToString nd = (case op nd of OpKind s \<Rightarrow> s)"

subsection \<open>Backend expressions and the max-over-dimensions primitive\<close>

text \<open>
  An \<^verbatim>\<open>xla::XlaOp\<close> is a handle to an expression of the backend builder. Two forms
  are needed: a placeholder of a given shape, as made for a trial lowering (any
  operation emitted elsewhere is a leaf of this kind), and the result of the
  max-over-dimensions primitive.
\<close>

datatype XlaOp = Parameter nat Shape | MaxInDims XlaOp "int list" bool

text \<open>
  Modelled from the spec: the shape of the max-over-dimensions primitive
  (\<^verbatim>\<open>BuildMaxInDims\<close> of \<^verbatim>\<open>torch_xla/csrc/reduction.h\<close>, missing from the sources).
  Walking the axes of the input from axis \<open>i\<close> on, a reduced axis is dropped, or kept
  with size 1 under keepdim, and every other axis keeps its size.
\<close>

fun reduce_dims :: "nat \<Rightarrow> Shape \<Rightarrow> int list \<Rightarrow> bool \<Rightarrow> Shape" where
  "reduce_dims i [] dimensions keepdim = []"
| "reduce_dims i (x # xs) dimensions keepdim =
     (if int i \<in> set dimensions
      then (if keepdim then 1 # reduce_dims (Suc i) xs dimensions keepdim
            else reduce_dims (Suc i) xs dimensions keepdim)
      else x # reduce_dims (Suc i) xs dimensions keepdim)"

text \<open>
  Modelled from the spec: every reduction dimension must be a valid axis index of the
  input; one outside the input's rank is an IndexOutOfRange error.
\<close>

definition MaxInDimsShape :: "Shape \<Rightarrow> int list \<Rightarrow> bool \<Rightarrow> error + Shape" where
  "MaxInDimsShape s dimensions keepdim =
     (if list_all (\<lambda>d. 0 \<le> d \<and> d < int (length s)) dimensions
      then Inr (reduce_dims 0 s dimensions keepdim)
      else Inl IndexOutOfRange)"

fun ShapeOfXlaOp :: "XlaOp \<Rightarrow> error + Shape" where
  "ShapeOfXlaOp (Parameter i s) = Inr s"
| "ShapeOfXlaOp (MaxInDims x dimensions keepdim) =
     (case ShapeOfXlaOp x of
        Inl e \<Rightarrow> Inl e
      | Inr s \<Rightarrow> MaxInDimsShape s dimensions keepdim)"

text \<open>
  Modelled from the spec: \<^verbatim>\<open>BuildMaxInDims\<close>, missing from the sources. It emits the
  max-over-dimensions expression over its operand, and fails where that expression
  has no shape.
\<close>

definition BuildMaxInDims :: "XlaOp \<Rightarrow> int list \<Rightarrow> bool \<Rightarrow> error + XlaOp" where
  "BuildMaxInDims input dimensions keepdim =
     (case ShapeOfXlaOp (MaxInDims input dimensions keepdim) of
        Inl e \<Rightarrow> Inl e
      | Inr s \<Rightarrow> Inr (MaxInDims input dimensions keepdim))"

text \<open>
  Modelled from the spec: \<^verbatim>\<open>InferOutputShape\<close> of
  \<^verbatim>\<open>torch_xla/csrc/ops/infer_output_shape.h\<close>, missing from the sources. Given the
  input shapes and a trial lowering, it hands the lowering one placeholder per input
  shape and returns the shape of the expression the lowering produces.
\<close>

definition InferOutputShape ::
  "Shape list \<Rightarrow> (XlaOp list \<Rightarrow> error + XlaOp) \<Rightarrow> error + Shape" where
  "InferOutputShape input_shapes lower_for_shape_fn =
     (case lower_for_shape_fn (map (\<lambda>(i, s). Parameter i s) (enumerate 0 input_shapes)) of
        Inl e \<Rightarrow> Inl e
      | Inr result \<Rightarrow> ShapeOfXlaOp result)"

subsection \<open>The AMax node\<close>

text \<open>
  \<^verbatim>\<open>NodeOutputShape\<close> (amax.cpp, lines 13 to 20). The trial lowering reads
  \<^verbatim>\<open>operands[0]\<close>; the span it is given has one placeholder, for the one input shape.
\<close>

definition NodeOutputShape :: "'h Value \<Rightarrow> int list \<Rightarrow> bool \<Rightarrow> error + Shape" where
  "NodeOutputShape input dimensions keepdim =
     (let lower_for_shape_fn = (\<lambda>operands. BuildMaxInDims (operands ! 0) dimensions keepdim)
      in InferOutputShape [Value_shape input] lower_for_shape_fn)"

text \<open>
  An AMax node: the \<^verbatim>\<open>Node\<close> base object and the two members the constructor
  initialises.
\<close>

record 'h AMaxNode =
  base :: "'h Node"
  dimensions_member :: "int list"
  keepdim_member :: bool

text \<open>
  \<^verbatim>\<open>AMax::AMax\<close> (amax.cpp, lines 24 to 29): the base is built with the kind
  \<^verbatim>\<open>at::aten::argmax\<close>, the single operand, the shape function, one output and the
  hash seed of the parameters; then the parameters are stored.
\<close>

definition AMax :: "'h HashFns \<Rightarrow> 'h Value \<Rightarrow> int list \<Rightarrow> bool \<Rightarrow> error + 'h AMaxNode" where
  "AMax H input dimensions keepdim =
     (case Node_ctor H (OpKind aten_argmax) [input]
             (\<lambda>_. NodeOutputShape input dimensions keepdim)
             1 (MHash H dimensions keepdim) of
        Inl e \<Rightarrow> Inl e
      | Inr nd \<Rightarrow> Inr \<lparr>base = nd, dimensions_member = dimensions, keepdim_member = keepdim\<rparr>)"

text \<open>\<^verbatim>\<open>keepdim()\<close> (amax.h, line 21).\<close>

definition keepdim :: "'h AMaxNode \<Rightarrow> bool" where
  "keepdim n = keepdim_member n"

text \<open>
  \<^verbatim>\<open>AMax::Clone\<close> (amax.cpp, lines 31 to 33): \<^verbatim>\<open>operands.at(0)\<close> throws on an empty
  operand list; \<^verbatim>\<open>MakeNode<AMax>\<close> runs the constructor.
\<close>

definition Clone :: "'h HashFns \<Rightarrow> 'h AMaxNode \<Rightarrow> 'h Value list \<Rightarrow> error + 'h AMaxNode" where
  "Clone H n ops =
     (case ops of
        [] \<Rightarrow> Inl StdOutOfRange
      | v # _ \<Rightarrow> AMax H v (dimensions_member n) (keepdim_member n))"

subsection \<open>Lowering\<close>

text \<open>
  Modelled from the spec: the \<^verbatim>\<open>LoweringContext\<close> of
  \<^verbatim>\<open>torch_xla/csrc/lowering_context.h\<close>, missing from the sources: a mapping from
  (node, output-index) pairs to the backend handles emitted so far.
\<close>

record 'h LoweringContext =
  emitted_outputs :: "'h Value \<rightharpoonup> XlaOp"

text \<open>
  Modelled from the spec: \<^verbatim>\<open>GetOutputOp\<close> returns the handle emitted before for the
  value, and on first access lowers the value's node. Lowering another node is a
  virtual call on that node; it is the parameter \<open>lower_node\<close>.
\<close>

definition GetOutputOp ::
  "('h Node \<Rightarrow> 'h LoweringContext \<Rightarrow> error + 'h LoweringContext)
     \<Rightarrow> 'h LoweringContext \<Rightarrow> 'h Value \<Rightarrow> error + (XlaOp \<times> 'h LoweringContext)" where
  "GetOutputOp lower_node loctx v =
     (case emitted_outputs loctx v of
        Some h \<Rightarrow> Inr (h, loctx)
      | None \<Rightarrow>
          (case lower_node (node v) loctx of
             Inl e \<Rightarrow> Inl e
           | Inr loctx' \<Rightarrow>
               (case emitted_outputs loctx' v of
                  Some h \<Rightarrow> Inr (h, loctx')
                | None \<Rightarrow> Inl LoweringError)))"

text \<open>
  Modelled from the spec: \<^verbatim>\<open>Node::ReturnOp\<close> registers the handle as the node's
  output 0 in the context and returns it wrapped in a vector.
\<close>

definition ReturnOp ::
  "'h Node \<Rightarrow> XlaOp \<Rightarrow> 'h LoweringContext \<Rightarrow> XlaOp list \<times> 'h LoweringContext" where
  "ReturnOp nd h loctx =
     ([h], loctx\<lparr>emitted_outputs := (emitted_outputs loctx)(Value nd 0 \<mapsto> h)\<rparr>)"

text \<open>
  \<^verbatim>\<open>AMax::Lower\<close> (amax.cpp, lines 35 to 38). A failure of a callee propagates, as an
  exception does.
\<close>

definition Lower ::
  "('h Node \<Rightarrow> 'h LoweringContext \<Rightarrow> error + 'h LoweringContext)
     \<Rightarrow> 'h AMaxNode \<Rightarrow> 'h LoweringContext \<Rightarrow> error + (XlaOp list \<times> 'h LoweringContext)" where
  "Lower lower_node n loctx =
     (case operand (base n) 0 of
        Inl e \<Rightarrow> Inl e
      | Inr v \<Rightarrow>
          (case GetOutputOp lower_node loctx v of
             Inl e \<Rightarrow> Inl e
           | Inr (input, loctx') \<Rightarrow>
               (case BuildMaxInDims input (dimensions_member n) (keepdim_member n) of
                  Inl e \<Rightarrow> Inl e
                | Inr r \<Rightarrow> Inr (ReturnOp (base n) r loctx'))))"

subsection \<open>String representation\<close>

text \<open>
  Decimal digits of a natural number, and an \<^verbatim>\<open>xla::int64\<close> as \<^verbatim>\<open>absl::StrJoin\<close>
  formats it.
\<close>

fun nat_digits :: "nat \<Rightarrow> string" where
  "nat_digits n =
     (if n < 10 then [char_of (48 + n)]
      else nat_digits (n div 10) @ [char_of (48 + n mod 10)])"

declare nat_digits.simps [simp del]

definition int64_string :: "int \<Rightarrow> string" where
  "int64_string i = (if i < 0 then CHR ''-'' # nat_digits (nat (- i)) else nat_digits (nat i))"

text \<open>\<^verbatim>\<open>absl::StrJoin\<close> over the formatted elements, with a separator.\<close>

fun StrJoin :: "string list \<Rightarrow> string \<Rightarrow> string" where
  "StrJoin [] sep = []"
| "StrJoin [x] sep = x"
| "StrJoin (x # y # ys) sep = x @ sep @ StrJoin (y # ys) sep"

text \<open>A \<^verbatim>\<open>bool\<close> written to a stream without \<^verbatim>\<open>boolalpha\<close>.\<close>

definition bool_string :: "bool \<Rightarrow> string" where
  "bool_string b = (if b then ''1'' else ''0'')"

text \<open>\<^verbatim>\<open>AMax::ToString\<close> (amax.cpp, lines 40 to 45).\<close>

definition ToString :: "'h AMaxNode \<Rightarrow> string" where
  "ToString n =
     Node_ToString (base n) @ '', dimensions=''
       @ StrJoin (map int64_string (dimensions_member n)) '', ''
       @ '', keepdim='' @ bool_string (keepdim_member n)"

subsection \<open>Concrete instances\<close>

text \<open>
  Hash functions over the natural numbers and two operand values of shape \<open>[3, 4]\<close>,
  for evaluating the definitions. The two values differ as nodes and have the same
  hash under these functions.
\<close>

definition example_hash :: "nat HashFns" where
  "example_hash =
     \<lparr>MHash = (\<lambda>d k. length d + (if k then 1 else 0)),
      OpHash = (\<lambda>k seed. seed + 7),
      OutputHash = (\<lambda>h i. h + i),
      HashCombine = (\<lambda>a b. 31 * a + b)\<rparr>"

definition example_input :: "nat Value" where
  "example_input = Value (Node (OpKind ''xla::device_data'') [] [3, 4] 1 5) 0"

definition example_other_input :: "nat Value" where
  "example_other_input = Value (Node (OpKind ''aten::split'') [] [3, 4] 2 4) 1"

text \<open>
  A lowering context in which the first value has been emitted as a placeholder, and a
  lowering of other nodes that always fails.
\<close>

definition example_context :: "nat LoweringContext" where
  "example_context = \<lparr>emitted_outputs = [example_input \<mapsto> Parameter 0 [3, 4]]\<rparr>"

definition example_lower_node :: "nat Node \<Rightarrow> nat LoweringContext \<Rightarrow> error + nat LoweringContext" where
  "example_lower_node nd loctx = Inl LoweringError"

section \<open>Properties\<close>

subsection \<open>Construction\<close>

lemma NodeOutputShape_eq:
  "NodeOutputShape v d k = MaxInDimsShape (Value_shape v) d k"
  by (simp add: NodeOutputShape_def InferOutputShape_def BuildMaxInDims_def
      split: sum.splits)

lemma MaxInDimsShape_Inr_iff:
  "MaxInDimsShape s d k = Inr t \<longleftrightarrow>
     (\<forall>x \<in> set d. 0 \<le> x \<and> x < int (length s)) \<and> t = reduce_dims 0 s d k"
  by (auto simp: MaxInDimsShape_def list_all_iff)

lemma AMax_Inr_iff:
  "AMax H v d k = Inr n \<longleftrightarrow>
     (\<exists>s. MaxInDimsShape (Value_shape v) d k = Inr s \<and>
          n = \<lparr>base = Node (OpKind aten_argmax) [v] s 1
                        (HashCombine H (OpHash H (OpKind aten_argmax) (MHash H d k))
                           (Value_hash H v)),
               dimensions_member = d, keepdim_member = k\<rparr>)"
  by (auto simp: AMax_def Node_ctor_def NodeOutputShape_eq split: sum.splits)

lemma AMax_Inl_iff:
  "AMax H v d k = Inl e \<longleftrightarrow> MaxInDimsShape (Value_shape v) d k = Inl e"
  by (auto simp: AMax_def Node_ctor_def NodeOutputShape_eq split: sum.splits)

subsection \<open>The shape of a reduction\<close>

lemma reduce_dims_keepdim_length:
  "length (reduce_dims i s d True) = length s"
  by (induction s arbitrary: i) auto

lemma reduce_dims_keepdim_nth:
  "j < length s \<Longrightarrow> reduce_dims i s d True ! j = (if int (i + j) \<in> set d then 1 else s ! j)"
proof (induction s arbitrary: i j)
  case Nil
  then show ?case by simp
next
  case (Cons x xs)
  show ?case
  proof (cases j)
    case 0
    then show ?thesis by simp
  next
    case (Suc j')
    with Cons.prems have "j' < length xs" by simp
    from Cons.IH [OF this, of "Suc i"] Suc show ?thesis by simp
  qed
qed

lemma reduce_dims_nths:
  "reduce_dims i s d False = nths s {j. int (i + j) \<notin> set d}"
proof (induction s arbitrary: i)
  case Nil
  then show ?case by simp
next
  case (Cons x xs)
  have "reduce_dims (Suc i) xs d False = nths xs {j. int (Suc i + j) \<notin> set d}"
    by (rule Cons.IH)
  moreover have "{j. int (i + Suc j) \<notin> set d} = {j. int (Suc i + j) \<notin> set d}"
    by simp
  ultimately show ?case by (simp add: nths_Cons del: of_nat_add of_nat_Suc)
qed

lemma reduce_dims_no_dimensions: "reduce_dims i s [] k = s"
  by (induction s arbitrary: i) auto

lemma card_kept_axes:
  assumes "\<forall>x \<in> set d. 0 \<le> x \<and> x < int n" and "distinct d"
  shows "card {j. j < n \<and> int j \<notin> set d} = n - length d"
proof -
  have inj: "inj_on nat (set d)"
  proof (rule inj_onI)
    fix x y assume "x \<in> set d" "y \<in> set d" "nat x = nat y"
    moreover from this assms(1) have "0 \<le> x" "0 \<le> y" by auto
    ultimately show "x = y" by simp
  qed
  have sub: "nat ` set d \<subseteq> {..<n}"
    using assms(1) by auto
  have eq: "{j. j < n \<and> int j \<notin> set d} = {..<n} - nat ` set d"
  proof (intro set_eqI iffI)
    fix j assume "j \<in> {j. j < n \<and> int j \<notin> set d}"
    then have "j < n" and notin: "int j \<notin> set d" by auto
    have "j \<notin> nat ` set d"
    proof
      assume "j \<in> nat ` set d"
      then obtain x where "x \<in> set d" "j = nat x" by auto
      with assms(1) have "int j = x" by auto
      with \<open>x \<in> set d\<close> notin show False by simp
    qed
    with \<open>j < n\<close> show "j \<in> {..<n} - nat ` set d" by simp
  next
    fix j assume "j \<in> {..<n} - nat ` set d"
    then have "j < n" and notin: "j \<notin> nat ` set d" by auto
    have "int j \<notin> set d"
    proof
      assume "int j \<in> set d"
      then have "nat (int j) \<in> nat ` set d" by (rule imageI)
      with notin show False by simp
    qed
    with \<open>j < n\<close> show "j \<in> {j. j < n \<and> int j \<notin> set d}" by simp
  qed
  have "card (nat ` set d) = length d"
    using inj assms(2) by (simp add: card_image distinct_card)
  then show ?thesis
    using sub by (simp add: eq card_Diff_subset)
qed

text \<open>
  C1. For a dimension list of distinct axes, each within the rank of the input,
  constructing an AMax node succeeds; the rank of its shape is the input rank, less the
  number of dimensions unless keepdim is set; with keepdim every axis that is not
  reduced keeps its size at its position, and without keepdim the shape is the
  sequence of the sizes of the axes that are not reduced, in order. For an input of
  shape \<open>[3, 4]\<close> and dimensions \<open>[1]\<close> the shape is \<open>[3]\<close>, and \<open>[3, 1]\<close> with
  keepdim.
\<close>

theorem AMax_output_shape:
  assumes "\<forall>x \<in> set d. 0 \<le> x \<and> x < int (length (Value_shape v))" and "distinct d"
  shows "\<exists>n. AMax H v d k = Inr n \<and>
           length (shape (base n)) = length (Value_shape v) - (if k then 0 else length d) \<and>
           (k \<longrightarrow> (\<forall>j < length (Value_shape v).
                      int j \<notin> set d \<longrightarrow> shape (base n) ! j = Value_shape v ! j)) \<and>
           (\<not> k \<longrightarrow> shape (base n) = nths (Value_shape v) {j. int j \<notin> set d}) \<and>
           (Value_shape v = [3, 4] \<and> d = [1] \<longrightarrow> shape (base n) = (if k then [3, 1] else [3]))"
proof -
  let ?s = "Value_shape v"
  let ?t = "reduce_dims 0 ?s d k"
  have ok: "MaxInDimsShape ?s d k = Inr ?t"
    using assms(1) by (simp add: MaxInDimsShape_Inr_iff)
  then obtain n where n: "AMax H v d k = Inr n" and sh: "shape (base n) = ?t"
    by (auto simp: AMax_Inr_iff)
  have len: "length ?t = length ?s - (if k then 0 else length d)"
  proof (cases k)
    case True
    then show ?thesis by (simp add: reduce_dims_keepdim_length)
  next
    case False
    have "length (nths ?s {j. int j \<notin> set d}) = card {j. j < length ?s \<and> int j \<notin> set d}"
      by (simp add: length_nths)
    also have "\<dots> = length ?s - length d"
      using assms by (rule card_kept_axes)
    finally show ?thesis using False by (simp add: reduce_dims_nths)
  qed
  have keep: "k \<longrightarrow> (\<forall>j < length ?s. int j \<notin> set d \<longrightarrow> ?t ! j = ?s ! j)"
    by (simp add: reduce_dims_keepdim_nth)
  have drop: "\<not> k \<longrightarrow> ?t = nths ?s {j. int j \<notin> set d}"
    by (simp add: reduce_dims_nths)
  have ex: "?s = [3, 4] \<and> d = [1] \<longrightarrow> ?t = (if k then [3, 1] else [3])"
    by auto
  from n sh len keep drop ex show ?thesis by simp
qed

theorem AMax_output_shape_witness:
  "list_all (\<lambda>x. 0 \<le> x \<and> x < int (length (Value_shape example_input))) [1] \<and>
   distinct [1::int] \<and>
   (\<exists>n. AMax example_hash example_input [1] False = Inr n \<and> shape (base n) = [3]) \<and>
   (\<exists>n. AMax example_hash example_input [1] True = Inr n \<and> shape (base n) = [3, 1])"
proof -
  have s: "Value_shape example_input = [3, 4]"
    by (simp add: Value_shape_def example_input_def)
  have h: "\<forall>x \<in> set [1]. 0 \<le> x \<and> x < int (length (Value_shape example_input))"
    by (simp add: s)
  have d: "distinct [1::int]" by simp
  from AMax_output_shape [OF h d, of example_hash False]
       AMax_output_shape [OF h d, of example_hash True] s h
  show ?thesis by auto
qed

text \<open>
  C2. If the dimension list holds an index that is at least the rank of the input, the
  construction of the AMax node itself fails, with IndexOutOfRange: no node is made,
  so nothing is clamped, wrapped or left to the lowering.
\<close>

theorem AMax_dimension_out_of_range:
  "\<exists>x \<in> set d. int (length (Value_shape v)) \<le> x \<Longrightarrow> AMax H v d k = Inl IndexOutOfRange"
proof -
  assume "\<exists>x \<in> set d. int (length (Value_shape v)) \<le> x"
  then obtain x where "x \<in> set d" and "\<not> x < int (length (Value_shape v))"
    by auto
  then have "\<not> list_all (\<lambda>d. 0 \<le> d \<and> d < int (length (Value_shape v))) d"
    by (auto simp: list_all_iff)
  then have "MaxInDimsShape (Value_shape v) d k = Inl IndexOutOfRange"
    by (simp add: MaxInDimsShape_def)
  then show ?thesis by (simp add: AMax_Inl_iff)
qed

theorem AMax_dimension_out_of_range_witness:
  "(\<exists>x \<in> set [2]. int (length (Value_shape example_input)) \<le> x) \<and>
   AMax example_hash example_input [2] False = Inl IndexOutOfRange \<and>
   AMax example_hash example_input [2] True = Inl IndexOutOfRange"
proof -
  have h: "\<exists>x \<in> set [2]. int (length (Value_shape example_input)) \<le> x"
    by (simp add: Value_shape_def example_input_def)
  from AMax_dimension_out_of_range [OF h] h show ?thesis by simp
qed

text \<open>
  C8. With an empty dimension list the construction succeeds for either keepdim flag,
  and the shape of the node is the shape of the input.
\<close>

theorem AMax_no_dimensions:
  "\<exists>n. AMax H v [] k = Inr n \<and> shape (base n) = Value_shape v"
  by (simp add: AMax_Inr_iff MaxInDimsShape_Inr_iff reduce_dims_no_dimensions)

theorem AMax_no_dimensions_witness:
  "(\<exists>n. AMax example_hash example_input [] False = Inr n \<and> shape (base n) = [3, 4]) \<and>
   (\<exists>n. AMax example_hash example_input [] True = Inr n \<and> shape (base n) = [3, 4])"
  using AMax_no_dimensions [of example_hash example_input False]
        AMax_no_dimensions [of example_hash example_input True]
  by (simp add: Value_shape_def example_input_def)

subsection \<open>The operation kind\<close>

text \<open>
  C10. Every constructed AMax node carries the operation-kind tag of
  \<^verbatim>\<open>at::aten::argmax\<close>, whatever its operand, dimensions and keepdim flag, so its tag
  is the tag of every node that is built with the kind \<^verbatim>\<open>at::aten::argmax\<close>.
\<close>

theorem AMax_op_kind_is_argmax:
  "AMax H v d k = Inr n \<Longrightarrow>
     op (base n) = OpKind ''aten::argmax'' \<and>
     (\<forall>ops f m seed nd. Node_ctor H (OpKind aten_argmax) ops f m seed = Inr nd
        \<longrightarrow> op nd = op (base n))"
  by (auto simp: AMax_Inr_iff aten_argmax_def Node_ctor_def split: sum.splits)

theorem AMax_op_kind_is_argmax_witness:
  "\<exists>n. AMax example_hash example_input [1] False = Inr n \<and> op (base n) = OpKind ''aten::argmax''"
proof -
  obtain n where n: "AMax example_hash example_input [1] False = Inr n"
    by (auto simp: AMax_Inr_iff MaxInDimsShape_Inr_iff Value_shape_def example_input_def)
  from AMax_op_kind_is_argmax [OF n] n show ?thesis
    by simp
qed

subsection \<open>Stored parameters and accessors\<close>

text \<open>
  C3. The header's accessor \<^verbatim>\<open>dim()\<close> returns one \<^verbatim>\<open>xla::int64\<close>, read from a member
  \<^verbatim>\<open>dim_\<close> that the class does not declare and the constructor does not initialise,
  and there is no accessor \<^verbatim>\<open>dimensions()\<close>. The constructor stores the whole list:
  built with the two axes \<open>[0, 1]\<close>, the node holds both of them, which no single
  \<^verbatim>\<open>xla::int64\<close> returns; \<^verbatim>\<open>keepdim()\<close> returns the flag.
\<close>

theorem AMax_two_axes_stored_as_list:
  "\<exists>n. AMax example_hash example_input [0, 1] False = Inr n \<and>
       dimensions_member n = [0, 1] \<and> keepdim n = False"
  by (simp add: AMax_Inr_iff MaxInDimsShape_Inr_iff Value_shape_def example_input_def keepdim_def)

subsection \<open>Cloning\<close>

text \<open>
  C4. Cloning a constructed AMax node over an operand list whose first value has the
  shape of the original operand succeeds and is the construction of an AMax node over
  that value with the dimensions and keepdim flag of the original: the clone has the
  substituted value as its single operand, the dimensions and the keepdim flag of the
  original, and the shape of the original, whichever node the new operand is.
\<close>

theorem Clone_same_parameters_and_shape:
  assumes "AMax H v d k = Inr n" and "Value_shape v' = Value_shape v"
  shows "\<exists>n'. Clone H n (v' # rest) = Inr n' \<and>
            Clone H n (v' # rest) = AMax H v' d k \<and>
            operands (base n') = [v'] \<and>
            operand (base n') 0 = Inr v' \<and>
            dimensions_member n' = dimensions_member n \<and>
            keepdim_member n' = keepdim_member n \<and>
            dimensions_member n' = d \<and>
            keepdim_member n' = k \<and>
            shape (base n') = shape (base n)"
  using assms by (auto simp: Clone_def AMax_Inr_iff operand_def)

theorem Clone_same_parameters_and_shape_witness:
  "\<exists>n n'. AMax example_hash example_input [1] True = Inr n \<and>
      Value_shape example_other_input = Value_shape example_input \<and>
      example_other_input \<noteq> example_input \<and>
      Clone example_hash n [example_other_input] = Inr n' \<and>
      operands (base n) = [example_input] \<and>
      operands (base n') = [example_other_input] \<and>
      dimensions_member n' = [1] \<and> keepdim_member n' = True \<and>
      shape (base n') = [3, 1] \<and> shape (base n) = [3, 1]"
proof -
  obtain n where n: "AMax example_hash example_input [1] True = Inr n"
    and p: "dimensions_member n = [1]" "keepdim_member n = True" "shape (base n) = [3, 1]"
      "operands (base n) = [example_input]"
    by (auto simp: AMax_Inr_iff MaxInDimsShape_Inr_iff Value_shape_def example_input_def)
  have s: "Value_shape example_other_input = Value_shape example_input"
    by (simp add: Value_shape_def example_input_def example_other_input_def)
  have ne: "example_other_input \<noteq> example_input"
    by (simp add: example_input_def example_other_input_def)
  from Clone_same_parameters_and_shape [OF n s, of "[]"] n p s ne show ?thesis
    by auto
qed

subsection \<open>The structural hash\<close>

text \<open>
  C5. The hash of a constructed AMax node is computed from its operation kind, the
  hash of its operand value and the hash seed of its dimensions and keepdim flag; two
  AMax nodes built with the same dimensions and flag over operands of equal hash have
  equal hashes.
\<close>

theorem AMax_hash_structural:
  assumes "AMax H v1 d k = Inr n1" and "AMax H v2 d k = Inr n2"
    and "Value_hash H v1 = Value_hash H v2"
  shows "hash (base n1) =
           HashCombine H (OpHash H (op (base n1)) (MHash H d k)) (Value_hash H v1) \<and>
         hash (base n1) = hash (base n2)"
  using assms by (auto simp: AMax_Inr_iff)

theorem AMax_hash_structural_witness:
  "\<exists>n1 n2. AMax example_hash example_input [1] False = Inr n1 \<and>
      AMax example_hash example_other_input [1] False = Inr n2 \<and>
      Value_hash example_hash example_input = Value_hash example_hash example_other_input \<and>
      example_input \<noteq> example_other_input \<and>
      hash (base n1) = 253 \<and> hash (base n2) = 253"
proof -
  obtain n1 where n1: "AMax example_hash example_input [1] False = Inr n1"
    and o1: "op (base n1) = OpKind aten_argmax"
    by (auto simp: AMax_Inr_iff MaxInDimsShape_Inr_iff Value_shape_def example_input_def)
  obtain n2 where n2: "AMax example_hash example_other_input [1] False = Inr n2"
    by (auto simp: AMax_Inr_iff MaxInDimsShape_Inr_iff Value_shape_def example_other_input_def)
  have h: "Value_hash example_hash example_input = Value_hash example_hash example_other_input"
    by (simp add: Value_hash_def example_hash_def example_input_def example_other_input_def)
  have v: "Value_hash example_hash example_input = 5"
    by (simp add: Value_hash_def example_hash_def example_input_def)
  have ne: "example_input \<noteq> example_other_input"
    by (simp add: example_input_def example_other_input_def)
  from AMax_hash_structural [OF n1 n2 h] n1 n2 h ne o1 v show ?thesis
    by (simp add: example_hash_def)
qed

subsection \<open>Lowering\<close>

lemma operand_of_AMax: "AMax H v d k = Inr n \<Longrightarrow> operand (base n) 0 = Inr v"
  by (auto simp: AMax_Inr_iff operand_def)

lemma BuildMaxInDims_same_shape:
  "ShapeOfXlaOp h = Inr s \<Longrightarrow> MaxInDimsShape s d k = Inr t \<Longrightarrow>
     BuildMaxInDims h d k = Inr (MaxInDims h d k) \<and> ShapeOfXlaOp (MaxInDims h d k) = Inr t"
  by (simp add: BuildMaxInDims_def)

lemma AMax_shape:
  "AMax H v d k = Inr n \<Longrightarrow> MaxInDimsShape (Value_shape v) d k = Inr (shape (base n))"
  by (auto simp: AMax_Inr_iff)

text \<open>
  C6. Lowering a constructed AMax node fetches the handle of the node's operand from
  the context with \<^verbatim>\<open>GetOutputOp\<close>, applies \<^verbatim>\<open>BuildMaxInDims\<close> to that handle with the
  dimensions and keepdim flag of the node, and registers and returns the result; a
  returned vector has exactly one handle, and lowering returns it whenever the operand's
  handle is available with the operand's shape.
\<close>

theorem Lower_fetches_applies_returns_one:
  assumes "AMax H v d k = Inr n"
  shows "Lower lower_node n loctx =
           (case GetOutputOp lower_node loctx v of
              Inl e \<Rightarrow> Inl e
            | Inr (input, loctx') \<Rightarrow>
                (case BuildMaxInDims input d k of
                   Inl e \<Rightarrow> Inl e
                 | Inr r \<Rightarrow>
                     Inr ([r], loctx'\<lparr>emitted_outputs :=
                                      (emitted_outputs loctx')(Value (base n) 0 \<mapsto> r)\<rparr>))) \<and>
         (\<forall>ops loctx''. Lower lower_node n loctx = Inr (ops, loctx'') \<longrightarrow> length ops = 1) \<and>
         (\<forall>h loctx'. GetOutputOp lower_node loctx v = Inr (h, loctx') \<and>
                      ShapeOfXlaOp h = Inr (Value_shape v) \<longrightarrow>
            Lower lower_node n loctx =
              Inr ([MaxInDims h d k],
                   loctx'\<lparr>emitted_outputs :=
                            (emitted_outputs loctx')(Value (base n) 0 \<mapsto> MaxInDims h d k)\<rparr>))"
proof -
  have dk: "dimensions_member n = d" "keepdim_member n = k"
    using assms by (auto simp: AMax_Inr_iff)
  have L: "Lower lower_node n loctx =
           (case GetOutputOp lower_node loctx v of
              Inl e \<Rightarrow> Inl e
            | Inr (input, loctx') \<Rightarrow>
                (case BuildMaxInDims input d k of
                   Inl e \<Rightarrow> Inl e
                 | Inr r \<Rightarrow>
                     Inr ([r], loctx'\<lparr>emitted_outputs :=
                                      (emitted_outputs loctx')(Value (base n) 0 \<mapsto> r)\<rparr>)))"
    by (simp add: Lower_def operand_of_AMax [OF assms] dk ReturnOp_def
        split: sum.splits prod.splits)
  have one: "\<forall>ops loctx''. Lower lower_node n loctx = Inr (ops, loctx'') \<longrightarrow> length ops = 1"
    unfolding L by (auto split: sum.splits prod.splits)
  have run: "\<forall>h loctx'. GetOutputOp lower_node loctx v = Inr (h, loctx') \<and>
                      ShapeOfXlaOp h = Inr (Value_shape v) \<longrightarrow>
            Lower lower_node n loctx =
              Inr ([MaxInDims h d k],
                   loctx'\<lparr>emitted_outputs :=
                            (emitted_outputs loctx')(Value (base n) 0 \<mapsto> MaxInDims h d k)\<rparr>)"
  proof (intro allI impI)
    fix h loctx'
    assume a: "GetOutputOp lower_node loctx v = Inr (h, loctx') \<and>
               ShapeOfXlaOp h = Inr (Value_shape v)"
    from a AMax_shape [OF assms] have "BuildMaxInDims h d k = Inr (MaxInDims h d k)"
      by (simp add: BuildMaxInDims_same_shape)
    with a show "Lower lower_node n loctx =
              Inr ([MaxInDims h d k],
                   loctx'\<lparr>emitted_outputs :=
                            (emitted_outputs loctx')(Value (base n) 0 \<mapsto> MaxInDims h d k)\<rparr>)"
      unfolding L by simp
  qed
  from L one run show ?thesis by blast
qed

theorem Lower_fetches_applies_returns_one_witness:
  "\<exists>n loctx''. AMax example_hash example_input [1] False = Inr n \<and>
     GetOutputOp example_lower_node example_context example_input =
       Inr (Parameter 0 [3, 4], example_context) \<and>
     Lower example_lower_node n example_context =
       Inr ([MaxInDims (Parameter 0 [3, 4]) [1] False], loctx'') \<and>
     emitted_outputs loctx'' (Value (base n) 0) = Some (MaxInDims (Parameter 0 [3, 4]) [1] False) \<and>
     emitted_outputs loctx'' example_input = Some (Parameter 0 [3, 4])"
proof -
  obtain n where n: "AMax example_hash example_input [1] False = Inr n"
    and b: "base n \<noteq> node example_input"
    by (auto simp: AMax_Inr_iff MaxInDimsShape_Inr_iff Value_shape_def example_input_def)
  have g: "GetOutputOp example_lower_node example_context example_input =
       Inr (Parameter 0 [3, 4], example_context)"
    by (simp add: GetOutputOp_def example_context_def)
  have s: "ShapeOfXlaOp (Parameter 0 [3, 4]) = Inr (Value_shape example_input)"
    by (simp add: Value_shape_def example_input_def)
  have ne: "Value (base n) 0 \<noteq> example_input"
    using b by (auto simp: example_input_def)
  let ?r = "MaxInDims (Parameter 0 [3, 4]) [1] False"
  let ?c = "example_context\<lparr>emitted_outputs :=
              (emitted_outputs example_context)(Value (base n) 0 \<mapsto> ?r)\<rparr>"
  from Lower_fetches_applies_returns_one [OF n, of example_lower_node example_context]
  have "\<forall>h loctx'. GetOutputOp example_lower_node example_context example_input = Inr (h, loctx') \<and>
                      ShapeOfXlaOp h = Inr (Value_shape example_input) \<longrightarrow>
            Lower example_lower_node n example_context =
              Inr ([MaxInDims h [1] False],
                   loctx'\<lparr>emitted_outputs :=
                            (emitted_outputs loctx')(Value (base n) 0 \<mapsto> MaxInDims h [1] False)\<rparr>)"
    by blast
  with g s have l: "Lower example_lower_node n example_context = Inr ([?r], ?c)"
    by blast
  have e1: "emitted_outputs ?c (Value (base n) 0) = Some ?r"
    by simp
  have e2: "emitted_outputs ?c example_input = Some (Parameter 0 [3, 4])"
    using ne by (simp add: example_context_def)
  from n g l e1 e2 show ?thesis by blast
qed

text \<open>
  C7. When lowering fetches for the operand a handle \<open>h\<close> of the operand's shape,
  \<^verbatim>\<open>Lower\<close> emits the expression that \<^verbatim>\<open>BuildMaxInDims\<close> builds over \<open>h\<close> with the
  dimensions and keepdim flag of the node, and \<^verbatim>\<open>NodeOutputShape\<close> returns the shape of
  the expression that \<^verbatim>\<open>BuildMaxInDims\<close> builds over the placeholder of the operand's
  shape with the same dimensions and flag; the two expressions have the same shape, which
  is the shape computed for the node at construction.
\<close>

theorem Lower_shape_agrees_with_node_shape:
  assumes "AMax H v d k = Inr n"
    and "GetOutputOp lower_node loctx v = Inr (h, loctx')"
    and "ShapeOfXlaOp h = Inr (Value_shape v)"
  shows "\<exists>r t loctx''. Lower lower_node n loctx = Inr ([r], loctx'') \<and>
           BuildMaxInDims h d k = Inr r \<and>
           r = MaxInDims h d k \<and>
           loctx'' = loctx'\<lparr>emitted_outputs := (emitted_outputs loctx')(Value (base n) 0 \<mapsto> r)\<rparr> \<and>
           BuildMaxInDims (Parameter 0 (Value_shape v)) d k = Inr t \<and>
           t = MaxInDims (Parameter 0 (Value_shape v)) d k \<and>
           NodeOutputShape v d k = ShapeOfXlaOp t \<and>
           ShapeOfXlaOp t = ShapeOfXlaOp r \<and>
           ShapeOfXlaOp r = Inr (shape (base n)) \<and>
           NodeOutputShape v d k = ShapeOfXlaOp r"
proof -
  have dk: "dimensions_member n = d" "keepdim_member n = k"
    using assms(1) by (auto simp: AMax_Inr_iff)
  from BuildMaxInDims_same_shape [OF assms(3) AMax_shape [OF assms(1)]]
  have b: "BuildMaxInDims h d k = Inr (MaxInDims h d k)"
    and s: "ShapeOfXlaOp (MaxInDims h d k) = Inr (shape (base n))"
    by simp_all
  have p: "ShapeOfXlaOp (Parameter 0 (Value_shape v)) = Inr (Value_shape v)"
    by simp
  from BuildMaxInDims_same_shape [OF p AMax_shape [OF assms(1)]]
  have bt: "BuildMaxInDims (Parameter 0 (Value_shape v)) d k =
              Inr (MaxInDims (Parameter 0 (Value_shape v)) d k)"
    and st: "ShapeOfXlaOp (MaxInDims (Parameter 0 (Value_shape v)) d k) = Inr (shape (base n))"
    by simp_all
  have l: "Lower lower_node n loctx =
          Inr ([MaxInDims h d k],
               loctx'\<lparr>emitted_outputs :=
                        (emitted_outputs loctx')(Value (base n) 0 \<mapsto> MaxInDims h d k)\<rparr>)"
    by (simp add: Lower_def operand_of_AMax [OF assms(1)] assms(2) dk b ReturnOp_def)
  have ns: "NodeOutputShape v d k = Inr (shape (base n))"
    using AMax_shape [OF assms(1)] by (simp only: NodeOutputShape_eq)
  from l b bt s st ns show ?thesis
    by (simp del: ShapeOfXlaOp.simps)
qed

theorem Lower_shape_agrees_with_node_shape_witness:
  "\<exists>n loctx''. AMax example_hash example_input [1] True = Inr n \<and>
     GetOutputOp example_lower_node example_context example_input =
       Inr (Parameter 0 [3, 4], example_context) \<and>
     ShapeOfXlaOp (Parameter 0 [3, 4]) = Inr (Value_shape example_input) \<and>
     Lower example_lower_node n example_context =
       Inr ([MaxInDims (Parameter 0 [3, 4]) [1] True], loctx'') \<and>
     ShapeOfXlaOp (MaxInDims (Parameter 0 [3, 4]) [1] True) = Inr [3, 1] \<and>
     NodeOutputShape example_input [1] True = Inr [3, 1] \<and>
     shape (base n) = [3, 1]"
proof -
  obtain n where n: "AMax example_hash example_input [1] True = Inr n"
    and sh: "shape (base n) = [3, 1]"
    by (auto simp: AMax_Inr_iff MaxInDimsShape_Inr_iff Value_shape_def example_input_def)
  have g: "GetOutputOp example_lower_node example_context example_input =
       Inr (Parameter 0 [3, 4], example_context)"
    by (simp add: GetOutputOp_def example_context_def)
  have s: "ShapeOfXlaOp (Parameter 0 [3, 4]) = Inr (Value_shape example_input)"
    by (simp add: Value_shape_def example_input_def)
  from Lower_shape_agrees_with_node_shape [OF n g s] n g s sh show ?thesis
    by (auto simp del: ShapeOfXlaOp.simps)
qed

subsection \<open>String representation\<close>

lemma int64_string_0: "int64_string 0 = ''0''"
  by code_simp

lemma int64_string_1: "int64_string 1 = ''1''"
  by code_simp

text \<open>
  C9. The string of a constructed AMax node is the base string of the node followed by
  \<open>, dimensions=\<close>, the dimensions joined by \<open>, \<close>, then \<open>, keepdim=\<close> and the flag
  as \<open>1\<close> or \<open>0\<close>.
\<close>

theorem ToString_appends_parameters:
  "AMax H v d k = Inr n \<Longrightarrow>
     ToString n = Node_ToString (base n) @ '', dimensions='' @ StrJoin (map int64_string d) '', ''
                    @ '', keepdim='' @ (if k then ''1'' else ''0'')"
  by (auto simp: AMax_Inr_iff ToString_def bool_string_def)

theorem ToString_appends_parameters_witness:
  "\<exists>n. AMax example_hash example_input [0, 1] True = Inr n \<and>
     Node_ToString (base n) = ''aten::argmax'' \<and>
     ToString n = ''aten::argmax, dimensions=0, 1, keepdim=1''"
proof -
  obtain n where n: "AMax example_hash example_input [0, 1] True = Inr n"
    and b: "Node_ToString (base n) = ''aten::argmax''"
    by (auto simp: AMax_Inr_iff MaxInDimsShape_Inr_iff Value_shape_def example_input_def
        Node_ToString_def aten_argmax_def)
  from ToString_appends_parameters [OF n] n b show ?thesis
    by (simp add: int64_string_0 int64_string_1)
qed

end
